theory Spec2Isabelle
  imports Main "HOL-Library.Sublist"
begin

section \<open>Strings and arrays of the host language\<close>

text \<open>
  Strings are lists of 8-bit code units (\<open>string\<close>). \<open>toLowerCase\<close> maps the upper-case
  letters of ASCII and of the Latin-1 supplement to their lower-case partners, as
  \<open>String.prototype.toLowerCase\<close> does on these code units; file names with code units
  beyond Latin-1 are outside the model.
\<close>

definition toLowerChar :: "char \<Rightarrow> char" where
  "toLowerChar c =
     (let n = (of_char c :: nat)
      in if (65 \<le> n \<and> n \<le> 90) \<or> (192 \<le> n \<and> n \<le> 222 \<and> n \<noteq> 215)
         then char_of (n + 32) else c)"

definition toLowerCase :: "string \<Rightarrow> string" where
  "toLowerCase s = map toLowerChar s"

definition startsWith :: "string \<Rightarrow> string \<Rightarrow> bool" where
  "startsWith s p = prefix p s"

definition endsWith :: "string \<Rightarrow> string \<Rightarrow> bool" where
  "endsWith s e = suffix e s"

definition includes_elem :: "'a list \<Rightarrow> 'a \<Rightarrow> bool" where
  "includes_elem xs x = (x \<in> set xs)"

definition some :: "('a \<Rightarrow> bool) \<Rightarrow> 'a list \<Rightarrow> bool" where
  "some p xs = list_ex p xs"

text \<open>\<open>s.split(c)\<close> for a one-character separator: never the empty array.\<close>

fun split :: "string \<Rightarrow> char \<Rightarrow> string list" where
  "split [] c = [[]]"
| "split (x # xs) c =
     (if x = c then [] # split xs c
      else (case split xs c of [] \<Rightarrow> [[x]] | w # ws \<Rightarrow> (x # w) # ws))"

text \<open>\<open>xs[i]\<close>: reading past the end gives \<open>undefined\<close>, here \<open>None\<close>.\<close>

fun index :: "'a list \<Rightarrow> nat \<Rightarrow> 'a option" where
  "index [] i = None"
| "index (x # xs) 0 = Some x"
| "index (x # xs) (Suc i) = index xs i"

text \<open>\<open>xs.join(sep)\<close>.\<close>

fun join :: "string list \<Rightarrow> string \<Rightarrow> string" where
  "join [] sep = []"
| "join [x] sep = x"
| "join (x # y # ys) sep = x @ sep @ join (y # ys) sep"

section \<open>Data model\<close>

text \<open>
  The browser's \<open>File\<close>: its name, its declared media type, and what its two lazy byte
  accessors deliver when they are called: \<open>readAsDataURL\<close> is the result of
  \<open>FileReader.readAsDataURL\<close> and \<open>readAsText\<close> the result of \<open>file.text()\<close>, each
  \<open>None\<close> when the read fails.
\<close>

record File =
  name :: string
  type :: string
  readAsDataURL :: "string option"
  readAsText :: "string option"

text \<open>
  \<open>ContentBlock = Base64ContentBlock | { type: "text"; text: string }\<close>. The optional
  properties \<open>mime_type\<close> and \<open>metadata\<close> of a base64 block are options (\<open>None\<close>: the
  property is absent). \<open>metadata\<close> is a dictionary; only its string-valued entries are
  kept, since the code compares entries to strings with \<open>===\<close> only. \<open>data\<close> is an
  option because \<open>fileToBase64\<close> can resolve with \<open>undefined\<close>.
\<close>

datatype ContentBlock =
    Base64ContentBlock
      (block_type: string)
      (source_type: string)
      (mime_type: "string option")
      (data: "string option")
      (metadata: "(string \<times> string) list option")
  | TextBlock (block_text: string)

datatype error =
    Error string
  | ReadFailure

text \<open>A promise: still pending, rejected with a reason, or fulfilled with a value.\<close>

datatype 'a promise =
    Pending
  | Rejected error
  | Fulfilled 'a

section \<open>Allow-lists\<close>

subsection \<open>The upload hook\<close>

definition SUPPORTED_FILE_TYPES :: "string list" where
  "SUPPORTED_FILE_TYPES =
     [''image/jpeg'', ''image/png'', ''image/gif'', ''image/webp'',
      ''application/pdf'',
      ''text/plain'', ''application/json'', ''text/x-python'', ''text/x-c++src'',
      ''text/x-csrc'', ''text/x-java-source'', ''text/markdown'', ''text/x-julia'',
      '''', ''application/octet-stream'']"

definition SUPPORTED_TEXT_EXTENSIONS :: "string list" where
  "SUPPORTED_TEXT_EXTENSIONS =
     [''.txt'', ''.py'', ''.js'', ''.ts'', ''.jsx'', ''.tsx'', ''.json'', ''.md'',
      ''.markdown'', ''.html'', ''.css'', ''.scss'', ''.sass'', ''.less'', ''.xml'',
      ''.yaml'', ''.yml'', ''.c'', ''.cpp'', ''.cc'', ''.cxx'', ''.h'', ''.hpp'',
      ''.java'', ''.go'', ''.rs'', ''.rb'', ''.php'', ''.sh'', ''.bash'', ''.zsh'',
      ''.fish'', ''.sql'', ''.r'', ''.jl'', ''.swift'', ''.kt'', ''.scala'',
      ''.clj'', ''.hs'', ''.elm'', ''.dart'', ''.lua'', ''.perl'', ''.pl'',
      ''.dockerfile'', ''.gitignore'', ''.env'', ''.log'', ''.cfg'', ''.conf'',
      ''.ini'']"

subsection \<open>The converter\<close>

definition supportedImageTypes :: "string list" where
  "supportedImageTypes = [''image/jpeg'', ''image/png'', ''image/gif'', ''image/webp'']"

definition supportedPdfTypes :: "string list" where
  "supportedPdfTypes = [''application/pdf'']"

definition supportedTextTypes :: "string list" where
  "supportedTextTypes =
     [''text/plain'', ''application/json'', ''text/x-python'', ''text/x-c++src'',
      ''text/x-csrc'', ''text/x-java-source'', ''text/markdown'', ''text/x-julia'',
      '''', ''application/octet-stream'']"

definition supportedTextExtensions :: "string list" where
  "supportedTextExtensions =
     [''.txt'', ''.py'', ''.js'', ''.ts'', ''.jsx'', ''.tsx'', ''.json'', ''.md'',
      ''.markdown'', ''.html'', ''.css'', ''.scss'', ''.sass'', ''.less'', ''.xml'',
      ''.yaml'', ''.yml'', ''.c'', ''.cpp'', ''.cc'', ''.cxx'', ''.h'', ''.hpp'',
      ''.java'', ''.go'', ''.rs'', ''.rb'', ''.php'', ''.sh'', ''.bash'', ''.zsh'',
      ''.fish'', ''.sql'', ''.r'', ''.jl'', ''.swift'', ''.kt'', ''.scala'',
      ''.clj'', ''.hs'', ''.elm'', ''.dart'', ''.lua'', ''.perl'', ''.pl'',
      ''.dockerfile'', ''.gitignore'', ''.env'', ''.log'', ''.cfg'', ''.conf'',
      ''.ini'']"

definition supportedFileTypes :: "string list" where
  "supportedFileTypes = supportedImageTypes @ supportedPdfTypes @ supportedTextTypes"

section \<open>The gate of the upload hook\<close>

definition isFileSupported :: "File \<Rightarrow> bool" where
  "isFileSupported file =
     (if includes_elem SUPPORTED_FILE_TYPES (type file) then True
      else (let fileName = toLowerCase (name file)
            in some (\<lambda>ext. endsWith fileName ext) SUPPORTED_TEXT_EXTENSIONS))"

section \<open>The duplicate predicate\<close>

text \<open>The literal \<open>`File: ${file.name}\n\n`\<close>.\<close>

definition filePrefix :: "File \<Rightarrow> string" where
  "filePrefix file = ''File: '' @ name file @ [CHR 0x0A, CHR 0x0A]"

text \<open>The three arrow functions handed to \<open>blocks.some\<close>.\<close>

fun sameTextFile :: "File \<Rightarrow> ContentBlock \<Rightarrow> bool" where
  "sameTextFile file (TextBlock t) = startsWith t (filePrefix file)"
| "sameTextFile file (Base64ContentBlock ty st mt d md) = False"

fun samePdfFile :: "File \<Rightarrow> ContentBlock \<Rightarrow> bool" where
  "samePdfFile file (Base64ContentBlock ty st mt d md) =
     (mt \<noteq> None \<and> ty = ''file'' \<and> mt = Some ''application/pdf'' \<and> md \<noteq> None \<and>
      (case md of None \<Rightarrow> False | Some m \<Rightarrow> map_of m ''filename'' = Some (name file)))"
| "samePdfFile file (TextBlock t) = False"

fun sameImageFile :: "File \<Rightarrow> ContentBlock \<Rightarrow> bool" where
  "sameImageFile file (Base64ContentBlock ty st mt d md) =
     (mt \<noteq> None \<and> ty = ''image'' \<and> md \<noteq> None \<and>
      (case md of None \<Rightarrow> False | Some m \<Rightarrow> map_of m ''name'' = Some (name file)) \<and>
      mt = Some (type file))"
| "sameImageFile file (TextBlock t) = False"

definition isDuplicate :: "File \<Rightarrow> ContentBlock list \<Rightarrow> bool" where
  "isDuplicate file blocks =
     (let fileName = toLowerCase (name file)
      in if some (\<lambda>ext. endsWith fileName ext) SUPPORTED_TEXT_EXTENSIONS
         then some (sameTextFile file) blocks
         else if type file = ''application/pdf''
         then some (samePdfFile file) blocks
         else if startsWith (type file) ''image/''
         then some (sameImageFile file) blocks
         else False)"

text \<open>
  The predicate that \<open>handlePaste\<close> declares for itself, closed over the hook's
  \<open>contentBlocks\<close>.
\<close>

definition isDuplicate_paste :: "ContentBlock list \<Rightarrow> File \<Rightarrow> bool" where
  "isDuplicate_paste contentBlocks file =
     (let fileName = toLowerCase (name file)
      in if some (\<lambda>ext. endsWith fileName ext) SUPPORTED_TEXT_EXTENSIONS
         then some (sameTextFile file) contentBlocks
         else if type file = ''application/pdf''
         then some (samePdfFile file) contentBlocks
         else if startsWith (type file) ''image/''
         then some (sameImageFile file) contentBlocks
         else False)"

section \<open>The converter\<close>

text \<open>
  \<open>fileToBase64\<close>: the reader's \<open>onerror\<close> rejects; its \<open>onloadend\<close> resolves with
  what follows the first comma of the data URL.
\<close>

definition fileToBase64 :: "File \<Rightarrow> error + string option" where
  "fileToBase64 file =
     (case readAsDataURL file of
        None \<Rightarrow> Inl ReadFailure
      | Some result \<Rightarrow> Inr (index (split result (CHR '','')) 1))"

text \<open>
  \<open>fileToContentBlock\<close> gives the messages it hands to \<open>toast.error\<close> and what its
  promise settles to (\<open>Inl\<close>: rejected). Both of its toasts are raised before its first
  \<open>await\<close>.
\<close>

definition fileToContentBlock :: "File \<Rightarrow> string list \<times> (error + ContentBlock)" where
  "fileToContentBlock file =
     (let isFileSupported =
            (if includes_elem supportedFileTypes (type file) then True
             else (let fileName = toLowerCase (name file)
                   in some (\<lambda>ext. endsWith fileName ext) supportedTextExtensions))
      in if \<not> isFileSupported
         then ([''Unsupported file type: '' @ type file @
                 ''. Supported types are: images, PDFs, and text/code files.''],
               Inl (Error (''Unsupported file type: '' @ type file)))
         else if includes_elem supportedImageTypes (type file)
         then (case fileToBase64 file of
                 Inl e \<Rightarrow> ([], Inl e)
               | Inr d \<Rightarrow>
                   ([], Inr (Base64ContentBlock ''image'' ''base64'' (Some (type file)) d
                               (Some [(''name'', name file)]))))
         else if includes_elem supportedPdfTypes (type file)
         then (case fileToBase64 file of
                 Inl e \<Rightarrow> ([], Inl e)
               | Inr d \<Rightarrow>
                   ([], Inr (Base64ContentBlock ''file'' ''base64'' (Some ''application/pdf'') d
                               (Some [(''filename'', name file)]))))
         else if includes_elem supportedTextTypes (type file) \<or>
                 some (\<lambda>ext. endsWith (toLowerCase (name file)) ext) supportedTextExtensions
         then (case readAsText file of
                 None \<Rightarrow> ([], Inl ReadFailure)
               | Some text \<Rightarrow>
                   ([], Inr (TextBlock (''File: '' @ name file @ [CHR 0x0A, CHR 0x0A] @ text))))
         else ([''Unsupported file type: '' @ type file],
               Inl (Error (''Unsupported file type: '' @ type file))))"

section \<open>\<open>Promise.all\<close>\<close>

text \<open>
  \<open>Promise.all(ps)\<close> over promises that settle one at a time. \<open>ps\<close> lists what each
  promise settles to and \<open>order\<close> the indices in the order in which they settle; an
  index out of range or already settled is skipped (a promise settles once). The first
  rejection rejects the whole; each fulfilment stores its value at the promise's own
  index, and the whole is fulfilled when every slot is filled. An \<open>order\<close> that ends
  before that leaves the promise pending.
\<close>

fun settleAll :: "(error + 'a) list \<Rightarrow> 'a option list \<Rightarrow> nat list \<Rightarrow> 'a list promise" where
  "settleAll ps vals [] = Pending"
| "settleAll ps vals (i # order) =
     (if i < length ps \<and> index vals i = Some None
      then (case ps ! i of
              Inl e \<Rightarrow> Rejected e
            | Inr v \<Rightarrow>
                (let vals' = vals[i := Some v]
                 in if list_all (\<lambda>x. x \<noteq> None) vals'
                    then Fulfilled (map the vals')
                    else settleAll ps vals' order))
      else settleAll ps vals order)"

definition promiseAll :: "(error + 'a) list \<Rightarrow> nat list \<Rightarrow> 'a list promise" where
  "promiseAll ps order =
     (if ps = [] then Fulfilled []
      else settleAll ps (replicate (length ps) None) order)"

section \<open>The upload hook\<close>

text \<open>
  The state the hook's handlers read and write: the two pieces of component state, the
  \<open>dragCounter\<close> ref, the messages handed to \<open>toast.error\<close> so far, and of the event
  being handled its two flags and the \<open>value\<close> of its target.
\<close>

record HookState =
  contentBlocks :: "ContentBlock list"
  dragOver :: bool
  dragCounter :: int
  toasts :: "string list"
  defaultPrevented :: bool
  propagationStopped :: bool
  targetValue :: string

definition toast_error :: "string \<Rightarrow> HookState \<Rightarrow> HookState" where
  "toast_error msg st = st\<lparr>toasts := toasts st @ [msg]\<rparr>"

definition setContentBlocks ::
  "(ContentBlock list \<Rightarrow> ContentBlock list) \<Rightarrow> HookState \<Rightarrow> HookState" where
  "setContentBlocks f st = st\<lparr>contentBlocks := f (contentBlocks st)\<rparr>"

definition setDragOver :: "bool \<Rightarrow> HookState \<Rightarrow> HookState" where
  "setDragOver b st = st\<lparr>dragOver := b\<rparr>"

definition uploadInvalidMessage :: string where
  "uploadInvalidMessage =
     ''You have uploaded an invalid file type. Please upload an image, PDF, or supported text/code file (e.g. .txt, .json, .py, .md, etc.).''"

definition pasteInvalidMessage :: string where
  "pasteInvalidMessage =
     ''You have pasted an invalid file type. Please paste an image, PDF, or supported text/code file (e.g. .txt, .json, .py, .md, etc.).''"

definition duplicateMessage :: "File list \<Rightarrow> string" where
  "duplicateMessage duplicateFiles =
     ''Duplicate file(s) detected: '' @ join (map name duplicateFiles) '', '' @
     ''. Each file can only be uploaded once per message.''"

text \<open>
  \<open>await Promise.all(uniqueFiles.map(fileToContentBlock))\<close>: every call of the converter
  runs up to its first \<open>await\<close> inside \<open>map\<close>, so their toasts come first and in the
  order of the files; then the reads settle in \<open>order\<close>.
\<close>

definition awaitAll ::
  "File list \<Rightarrow> nat list \<Rightarrow> HookState \<Rightarrow> ContentBlock list promise \<times> HookState" where
  "awaitAll uniqueFiles order st =
     (let calls = map fileToContentBlock uniqueFiles
      in (promiseAll (map snd calls) order,
          st\<lparr>toasts := toasts st @ concat (map fst calls)\<rparr>))"

text \<open>
  Every handler takes \<open>contentBlocks\<close>, the collection its closure captured when the
  component rendered, apart from the state it updates: the functional update
  \<open>setContentBlocks((prev) => ...)\<close> reads the state as it is when the update runs.
\<close>

definition handleFileUpload ::
  "ContentBlock list \<Rightarrow> File list option \<Rightarrow> nat list \<Rightarrow> HookState \<Rightarrow> unit promise \<times> HookState" where
  "handleFileUpload contentBlocks' files order st =
     (case files of
        None \<Rightarrow> (Fulfilled (), st)
      | Some fileArray \<Rightarrow>
          (let validFiles = filter (\<lambda>file. isFileSupported file) fileArray;
               invalidFiles = filter (\<lambda>file. \<not> isFileSupported file) fileArray;
               duplicateFiles = filter (\<lambda>file. isDuplicate file contentBlocks') validFiles;
               uniqueFiles = filter (\<lambda>file. \<not> isDuplicate file contentBlocks') validFiles;
               st1 = (if length invalidFiles > 0 then toast_error uploadInvalidMessage st else st);
               st2 = (if length duplicateFiles > 0
                      then toast_error (duplicateMessage duplicateFiles) st1 else st1);
               (awaited, st3) = (if length uniqueFiles \<noteq> 0 then awaitAll uniqueFiles order st2
                                 else (Fulfilled [], st2))
           in case awaited of
                Pending \<Rightarrow> (Pending, st3)
              | Rejected err \<Rightarrow> (Rejected err, st3)
              | Fulfilled newBlocks \<Rightarrow>
                  (Fulfilled (),
                   (setContentBlocks (\<lambda>prev. prev @ newBlocks) st3)\<lparr>targetValue := []\<rparr>)))"

subsection \<open>Window-level drag events\<close>

record DataTransfer =
  types :: "string list"
  files :: "File list"

record DragEvent =
  dataTransfer :: "DataTransfer option"

text \<open>\<open>e.dataTransfer?.types?.includes("Files")\<close>.\<close>

definition hasFiles :: "DragEvent \<Rightarrow> bool" where
  "hasFiles e =
     (case dataTransfer e of None \<Rightarrow> False | Some dt \<Rightarrow> includes_elem (types dt) ''Files'')"

definition handleWindowDragEnter :: "DragEvent \<Rightarrow> HookState \<Rightarrow> HookState" where
  "handleWindowDragEnter e st =
     (if hasFiles e
      then setDragOver True (st\<lparr>dragCounter := dragCounter st + 1\<rparr>)
      else st)"

definition handleWindowDragLeave :: "DragEvent \<Rightarrow> HookState \<Rightarrow> HookState" where
  "handleWindowDragLeave e st =
     (if hasFiles e
      then (let st1 = st\<lparr>dragCounter := dragCounter st - 1\<rparr>
            in if dragCounter st1 \<le> 0
               then (setDragOver False st1)\<lparr>dragCounter := 0\<rparr>
               else st1)
      else st)"

definition handleWindowDrop ::
  "ContentBlock list \<Rightarrow> DragEvent \<Rightarrow> nat list \<Rightarrow> HookState \<Rightarrow> unit promise \<times> HookState" where
  "handleWindowDrop contentBlocks' e order st =
     (let st0 = setDragOver False
                  (st\<lparr>defaultPrevented := True, propagationStopped := True, dragCounter := 0\<rparr>)
      in case dataTransfer e of
           None \<Rightarrow> (Fulfilled (), st0)
         | Some dt \<Rightarrow>
             (let validFiles = filter (\<lambda>file. isFileSupported file) (files dt);
                  invalidFiles = filter (\<lambda>file. \<not> isFileSupported file) (files dt);
                  duplicateFiles = filter (\<lambda>file. isDuplicate file contentBlocks') validFiles;
                  uniqueFiles = filter (\<lambda>file. \<not> isDuplicate file contentBlocks') validFiles;
                  st1 = (if length invalidFiles > 0
                         then toast_error uploadInvalidMessage st0 else st0);
                  st2 = (if length duplicateFiles > 0
                         then toast_error (duplicateMessage duplicateFiles) st1 else st1);
                  (awaited, st3) = (if length uniqueFiles \<noteq> 0
                                    then awaitAll uniqueFiles order st2
                                    else (Fulfilled [], st2))
              in case awaited of
                   Pending \<Rightarrow> (Pending, st3)
                 | Rejected err \<Rightarrow> (Rejected err, st3)
                 | Fulfilled newBlocks \<Rightarrow>
                     (Fulfilled (), setContentBlocks (\<lambda>prev. prev @ newBlocks) st3)))"

definition handleWindowDragEnd :: "DragEvent \<Rightarrow> HookState \<Rightarrow> HookState" where
  "handleWindowDragEnd e st = setDragOver False (st\<lparr>dragCounter := 0\<rparr>)"

text \<open>
  The four listeners the hook registers on the window for the drag state, and a run of
  events through them. Each event arrives with its two flags clear and is handled to its
  end before the next, by the listeners of the current render, whose closure holds the
  current collection; a drop comes with the order in which its reads settle.
\<close>

datatype WindowEvent =
    DragEnter DragEvent
  | DragLeave DragEvent
  | Drop DragEvent "nat list"
  | DragEnd DragEvent

definition freshEvent :: "HookState \<Rightarrow> HookState" where
  "freshEvent st = st\<lparr>defaultPrevented := False, propagationStopped := False\<rparr>"

fun dispatch :: "WindowEvent \<Rightarrow> HookState \<Rightarrow> HookState" where
  "dispatch (DragEnter e) st = handleWindowDragEnter e (freshEvent st)"
| "dispatch (DragLeave e) st = handleWindowDragLeave e (freshEvent st)"
| "dispatch (Drop e order) st =
     snd (handleWindowDrop (contentBlocks st) e order (freshEvent st))"
| "dispatch (DragEnd e) st = handleWindowDragEnd e (freshEvent st)"

fun run :: "WindowEvent list \<Rightarrow> HookState \<Rightarrow> HookState" where
  "run [] st = st"
| "run (ev # evs) st = run evs (dispatch ev st)"

text \<open>The hook's state after \<open>useState(initialBlocks)\<close>, \<open>useState(false)\<close>, \<open>useRef(0)\<close>.\<close>

definition useFileUpload :: "ContentBlock list \<Rightarrow> HookState" where
  "useFileUpload initialBlocks =
     \<lparr>contentBlocks = initialBlocks, dragOver = False, dragCounter = 0, toasts = [],
      defaultPrevented = False, propagationStopped = False, targetValue = []\<rparr>"

subsection \<open>Removal and reset\<close>

definition removeBlock :: "nat \<Rightarrow> HookState \<Rightarrow> HookState" where
  "removeBlock idx st =
     setContentBlocks
       (\<lambda>prev. map snd (filter (\<lambda>(i, b). i \<noteq> idx) (zip [0..<length prev] prev))) st"

definition resetBlocks :: "HookState \<Rightarrow> HookState" where
  "resetBlocks st = setContentBlocks (\<lambda>prev. []) st"

subsection \<open>Paste\<close>

record DataTransferItem =
  kind :: string
  getAsFile :: "File option"

text \<open>The loop of \<open>handlePaste\<close> that collects the files of the clipboard items.\<close>

fun pastedFiles :: "DataTransferItem list \<Rightarrow> File list" where
  "pastedFiles [] = []"
| "pastedFiles (item # items) =
     (if kind item = ''file''
      then (case getAsFile item of
              Some file \<Rightarrow> file # pastedFiles items
            | None \<Rightarrow> pastedFiles items)
      else pastedFiles items)"

definition handlePaste ::
  "ContentBlock list \<Rightarrow> DataTransferItem list option \<Rightarrow> nat list \<Rightarrow> HookState
     \<Rightarrow> unit promise \<times> HookState" where
  "handlePaste contentBlocks' items order st =
     (case items of
        None \<Rightarrow> (Fulfilled (), st)
      | Some its \<Rightarrow>
          (let files = pastedFiles its
           in if length files = 0 then (Fulfilled (), st)
              else
                (let st0 = st\<lparr>defaultPrevented := True\<rparr>;
                     validFiles = filter (\<lambda>file. isFileSupported file) files;
                     invalidFiles = filter (\<lambda>file. \<not> isFileSupported file) files;
                     duplicateFiles = filter (isDuplicate_paste contentBlocks') validFiles;
                     uniqueFiles =
                       filter (\<lambda>file. \<not> isDuplicate_paste contentBlocks' file) validFiles;
                     st1 = (if length invalidFiles > 0
                            then toast_error pasteInvalidMessage st0 else st0);
                     st2 = (if length duplicateFiles > 0
                            then toast_error (duplicateMessage duplicateFiles) st1 else st1)
                 in if length uniqueFiles > 0
                    then (case awaitAll uniqueFiles order st2 of
                            (Pending, st3) \<Rightarrow> (Pending, st3)
                          | (Rejected err, st3) \<Rightarrow> (Rejected err, st3)
                          | (Fulfilled newBlocks, st3) \<Rightarrow>
                              (Fulfilled (), setContentBlocks (\<lambda>prev. prev @ newBlocks) st3))
                    else (Fulfilled (), st2))))"

section \<open>Properties of \<open>Promise.all\<close>\<close>

lemma index_nth: "index xs i = (if i < length xs then Some (xs ! i) else None)"
proof (induction xs arbitrary: i)
  case Nil
  show ?case by simp
next
  case (Cons x xs)
  show ?case by (cases i) (simp_all add: Cons.IH)
qed

text \<open>
  The invariant of \<open>settleAll\<close>: there is a slot for every promise, and a filled slot
  holds the value its promise was fulfilled with.
\<close>

lemma slots_update:
  assumes "length vals = length ps"
    and "\<forall>k<length ps. \<forall>w. vals ! k = Some w \<longrightarrow> ps ! k = Inr w"
    and "i < length ps" "ps ! i = Inr v"
  shows "\<forall>k<length ps. \<forall>w. vals[i := Some v] ! k = Some w \<longrightarrow> ps ! k = Inr w"
  using assms by (auto simp: nth_list_update)

lemma slots_full:
  assumes len: "length vals = length ps"
    and inv: "\<forall>k<length ps. \<forall>w. vals ! k = Some w \<longrightarrow> ps ! k = Inr w"
    and full: "list_all (\<lambda>x. x \<noteq> None) vals"
  shows "ps = map Inr (map the vals)"
proof (rule nth_equalityI)
  show "length ps = length (map Inr (map the vals))"
    using len by simp
next
  fix k assume k: "k < length ps"
  with len have kv: "k < length vals" by simp
  with full have "vals ! k \<noteq> None" by (simp add: list_all_length)
  then obtain w where w: "vals ! k = Some w" by auto
  with inv k have "ps ! k = Inr w" by simp
  with kv w show "ps ! k = map Inr (map the vals) ! k" by simp
qed

lemma settleAll_Fulfilled:
  assumes "length vals = length ps"
    and "\<forall>k<length ps. \<forall>w. vals ! k = Some w \<longrightarrow> ps ! k = Inr w"
    and "settleAll ps vals order = Fulfilled vs"
  shows "ps = map Inr vs"
  using assms
proof (induction order arbitrary: vals)
  case Nil
  then show ?case by simp
next
  case (Cons i order)
  show ?case
  proof (cases "i < length ps \<and> index vals i = Some None")
    case False
    with Cons.prems(3) have "settleAll ps vals order = Fulfilled vs" by auto
    with Cons.IH Cons.prems(1,2) show ?thesis by blast
  next
    case True
    show ?thesis
    proof (cases "ps ! i")
      case (Inl e)
      with True Cons.prems(3) show ?thesis by simp
    next
      case (Inr v)
      let ?vals = "vals[i := Some v]"
      have len: "length ?vals = length ps" using Cons.prems(1) by simp
      have inv: "\<forall>k<length ps. \<forall>w. ?vals ! k = Some w \<longrightarrow> ps ! k = Inr w"
        using Cons.prems(1,2) True Inr by (intro slots_update) simp_all
      show ?thesis
      proof (cases "list_all (\<lambda>x. x \<noteq> None) ?vals")
        case full: True
        with True Inr Cons.prems(3) have "vs = map the ?vals" by simp
        with slots_full[OF len inv full] show ?thesis by simp
      next
        case notfull: False
        with True Inr Cons.prems(3) have "settleAll ps ?vals order = Fulfilled vs" by simp
        with Cons.IH len inv show ?thesis by blast
      qed
    qed
  qed
qed

lemma promiseAll_Fulfilled:
  assumes "promiseAll ps order = Fulfilled vs"
  shows "ps = map Inr vs"
proof (cases "ps = []")
  case True
  with assms show ?thesis by (simp add: promiseAll_def)
next
  case False
  with assms have "settleAll ps (replicate (length ps) None) order = Fulfilled vs"
    by (simp add: promiseAll_def)
  then show ?thesis by (intro settleAll_Fulfilled[of "replicate (length ps) None"]) simp_all
qed

lemma promiseAll_rejecting:
  assumes "Inl e \<in> set ps"
  shows "promiseAll ps order \<noteq> Fulfilled vs"
proof
  assume "promiseAll ps order = Fulfilled vs"
  then have "ps = map Inr vs" by (rule promiseAll_Fulfilled)
  with assms show False by auto
qed

lemma settleAll_complete:
  assumes "length vals = length ps"
    and "\<forall>k<length ps. \<forall>w. vals ! k = Some w \<longrightarrow> ps ! k = Inr w"
    and "\<forall>i<length ps. \<exists>v. ps ! i = Inr v"
    and "\<exists>i<length ps. vals ! i = None"
    and "{i. i < length ps \<and> vals ! i = None} \<subseteq> set order"
  shows "settleAll ps vals order = Fulfilled (map projr ps)"
  using assms
proof (induction order arbitrary: vals)
  case Nil
  then show ?case by auto
next
  case (Cons i order)
  note len = Cons.prems(1) and inv = Cons.prems(2) and good = Cons.prems(3)
  show ?case
  proof (cases "i < length ps \<and> vals ! i = None")
    case False
    then have "\<not> (i < length ps \<and> index vals i = Some None)"
      by (auto simp: index_nth len)
    then have eq: "settleAll ps vals (i # order) = settleAll ps vals order" by auto
    have "{i. i < length ps \<and> vals ! i = None} \<subseteq> set order"
      using Cons.prems(5) False by auto
    with Cons.IH[OF len inv good Cons.prems(4)] eq show ?thesis by simp
  next
    case True
    then have cond: "i < length ps \<and> index vals i = Some None"
      by (simp add: index_nth len)
    from True good obtain v where v: "ps ! i = Inr v" by blast
    let ?vals = "vals[i := Some v]"
    have len': "length ?vals = length ps" using len by simp
    have inv': "\<forall>k<length ps. \<forall>w. ?vals ! k = Some w \<longrightarrow> ps ! k = Inr w"
      using len inv True v by (intro slots_update) simp_all
    show ?thesis
    proof (cases "list_all (\<lambda>x. x \<noteq> None) ?vals")
      case full: True
      have "settleAll ps vals (i # order) = Fulfilled (map the ?vals)"
        using cond v full by simp
      moreover have "map projr ps = map the ?vals"
        using slots_full[OF len' inv' full] by (simp add: comp_def)
      ultimately show ?thesis by simp
    next
      case notfull: False
      have eq: "settleAll ps vals (i # order) = settleAll ps ?vals order"
        using cond v notfull by simp
      from notfull obtain k where k: "k < length ?vals" "?vals ! k = None"
        by (auto simp: list_all_length)
      then have ex: "\<exists>k<length ps. ?vals ! k = None" using len by auto
      have sub: "{k. k < length ps \<and> ?vals ! k = None} \<subseteq> set order"
      proof
        fix k assume "k \<in> {k. k < length ps \<and> ?vals ! k = None}"
        then have kl: "k < length ps" and kn: "?vals ! k = None" by auto
        from kn kl len have "k \<noteq> i" by (auto simp: nth_list_update split: if_splits)
        with kn have "vals ! k = None" by simp
        with kl Cons.prems(5) have "k \<in> set (i # order)" by auto
        with \<open>k \<noteq> i\<close> show "k \<in> set order" by simp
      qed
      from Cons.IH[OF len' inv' good ex sub] eq show ?thesis by simp
    qed
  qed
qed

lemma promiseAll_complete:
  assumes "\<forall>i<length ps. \<exists>v. ps ! i = Inr v" and "{..<length ps} \<subseteq> set order"
  shows "promiseAll ps order = Fulfilled (map projr ps)"
proof (cases "ps = []")
  case True
  then show ?thesis by (simp add: promiseAll_def)
next
  case False
  let ?vals = "replicate (length ps) (None :: 'a option)"
  from False have "\<exists>i<length ps. ?vals ! i = None" by auto
  moreover from assms(2) have "{i. i < length ps \<and> ?vals ! i = None} \<subseteq> set order" by auto
  ultimately have "settleAll ps ?vals order = Fulfilled (map projr ps)"
    using assms(1) by (intro settleAll_complete) simp_all
  with False show ?thesis by (simp add: promiseAll_def)
qed

lemma promiseAll_Nil: "promiseAll [] order = Fulfilled []"
  by (simp add: promiseAll_def)

lemma settleAll_rejects:
  assumes "length vals = length ps"
    and "\<forall>k<length ps. \<forall>w. vals ! k = Some w \<longrightarrow> ps ! k = Inr w"
    and "j < length ps" "ps ! j = Inl e0"
    and "{i. i < length ps \<and> vals ! i = None} \<subseteq> set order"
  shows "\<exists>e. settleAll ps vals order = Rejected e"
  using assms
proof (induction order arbitrary: vals)
  case Nil
  from Nil.prems(2,3,4) have "vals ! j = None" by (cases "vals ! j") auto
  with Nil.prems(3,5) show ?case by auto
next
  case (Cons i order)
  note len = Cons.prems(1) and inv = Cons.prems(2) and j = Cons.prems(3,4)
  show ?case
  proof (cases "i < length ps \<and> vals ! i = None")
    case False
    then have "\<not> (i < length ps \<and> index vals i = Some None)"
      by (auto simp: index_nth len)
    then have eq: "settleAll ps vals (i # order) = settleAll ps vals order" by auto
    have "{i. i < length ps \<and> vals ! i = None} \<subseteq> set order"
      using Cons.prems(5) False by auto
    with Cons.IH[OF len inv j] eq show ?thesis by simp
  next
    case True
    then have cond: "i < length ps \<and> index vals i = Some None"
      by (simp add: index_nth len)
    show ?thesis
    proof (cases "ps ! i")
      case (Inl e)
      with cond show ?thesis by simp
    next
      case (Inr v)
      let ?vals = "vals[i := Some v]"
      have len': "length ?vals = length ps" using len by simp
      have inv': "\<forall>k<length ps. \<forall>w. ?vals ! k = Some w \<longrightarrow> ps ! k = Inr w"
        using len inv True Inr by (intro slots_update) simp_all
      from j Inr have ji: "j \<noteq> i" by auto
      from inv j have "vals ! j = None" by (cases "vals ! j") auto
      with ji have "?vals ! j = None" by simp
      with j(1) len' have notfull: "\<not> list_all (\<lambda>x. x \<noteq> None) ?vals"
        by (auto simp: list_all_length)
      have eq: "settleAll ps vals (i # order) = settleAll ps ?vals order"
        using cond Inr notfull by simp
      have sub: "{k. k < length ps \<and> ?vals ! k = None} \<subseteq> set order"
      proof
        fix k assume "k \<in> {k. k < length ps \<and> ?vals ! k = None}"
        then have kl: "k < length ps" and kn: "?vals ! k = None" by auto
        from kn kl len have "k \<noteq> i" by (auto simp: nth_list_update split: if_splits)
        with kn have "vals ! k = None" by simp
        with kl Cons.prems(5) have "k \<in> set (i # order)" by auto
        with \<open>k \<noteq> i\<close> show "k \<in> set order" by simp
      qed
      from Cons.IH[OF len' inv' j sub] eq show ?thesis by simp
    qed
  qed
qed

lemma promiseAll_rejects:
  assumes "Inl e0 \<in> set ps" and "{..<length ps} \<subseteq> set order"
  shows "\<exists>e. promiseAll ps order = Rejected e"
proof -
  from assms(1) obtain j where j: "j < length ps" "ps ! j = Inl e0"
    by (auto simp: in_set_conv_nth)
  then have ne: "ps \<noteq> []" by auto
  let ?vals = "replicate (length ps) (None :: 'a option)"
  from assms(2) have "{i. i < length ps \<and> ?vals ! i = None} \<subseteq> set order" by auto
  then have "\<exists>e. settleAll ps ?vals order = Rejected e"
    using j by (intro settleAll_rejects[of ?vals ps j e0]) simp_all
  with ne show ?thesis by (simp add: promiseAll_def)
qed

section \<open>What an ingestion call does to the collection\<close>

text \<open>
  The three entry points share one shape: the unique files are the supported files of the
  batch that the duplicate predicate does not flag against the captured collection, and
  the collection grows by what \<open>Promise.all\<close> over their conversions is fulfilled with,
  or not at all.
\<close>

lemma awaitAll_fst:
  "fst (awaitAll fs order st) = promiseAll (map (\<lambda>f. snd (fileToContentBlock f)) fs) order"
  by (simp add: awaitAll_def Let_def comp_def)

lemma awaitAll_snd:
  "snd (awaitAll fs order st) =
     st\<lparr>toasts := toasts st @ concat (map (\<lambda>f. fst (fileToContentBlock f)) fs)\<rparr>"
  by (simp add: awaitAll_def Let_def comp_def)

lemma handleFileUpload_blocks:
  "contentBlocks (snd (handleFileUpload snap (Some fs) order st)) =
     (case promiseAll (map (\<lambda>f. snd (fileToContentBlock f))
                         (filter (\<lambda>f. isFileSupported f \<and> \<not> isDuplicate f snap) fs)) order of
        Fulfilled bs \<Rightarrow> contentBlocks st @ bs
      | _ \<Rightarrow> contentBlocks st)"
  by (simp add: handleFileUpload_def Let_def awaitAll_def comp_def promiseAll_Nil
        toast_error_def setContentBlocks_def split: promise.splits prod.splits)

lemma handleFileUpload_outcome:
  "fst (handleFileUpload snap (Some fs) order st) =
     (case promiseAll (map (\<lambda>f. snd (fileToContentBlock f))
                         (filter (\<lambda>f. isFileSupported f \<and> \<not> isDuplicate f snap) fs)) order of
        Fulfilled bs \<Rightarrow> Fulfilled ()
      | Rejected e \<Rightarrow> Rejected e
      | Pending \<Rightarrow> Pending)"
  by (simp add: handleFileUpload_def Let_def awaitAll_def comp_def promiseAll_Nil
        toast_error_def setContentBlocks_def split: promise.splits prod.splits)

lemma handleWindowDrop_blocks:
  "dataTransfer e = Some dt \<Longrightarrow>
   contentBlocks (snd (handleWindowDrop snap e order st)) =
     (case promiseAll (map (\<lambda>f. snd (fileToContentBlock f))
                         (filter (\<lambda>f. isFileSupported f \<and> \<not> isDuplicate f snap) (files dt))) order of
        Fulfilled bs \<Rightarrow> contentBlocks st @ bs
      | _ \<Rightarrow> contentBlocks st)"
  by (simp add: handleWindowDrop_def Let_def awaitAll_def comp_def promiseAll_Nil
        toast_error_def setContentBlocks_def setDragOver_def split: promise.splits prod.splits)

lemma handleWindowDrop_outcome:
  "dataTransfer e = Some dt \<Longrightarrow>
   fst (handleWindowDrop snap e order st) =
     (case promiseAll (map (\<lambda>f. snd (fileToContentBlock f))
                         (filter (\<lambda>f. isFileSupported f \<and> \<not> isDuplicate f snap) (files dt))) order of
        Fulfilled bs \<Rightarrow> Fulfilled ()
      | Rejected e \<Rightarrow> Rejected e
      | Pending \<Rightarrow> Pending)"
  by (simp add: handleWindowDrop_def Let_def awaitAll_def comp_def promiseAll_Nil
        toast_error_def setContentBlocks_def setDragOver_def split: promise.splits prod.splits)

lemma isDuplicate_paste_eq: "isDuplicate_paste blocks file = isDuplicate file blocks"
  by (simp add: isDuplicate_paste_def isDuplicate_def)

lemma handlePaste_blocks:
  "contentBlocks (snd (handlePaste snap (Some its) order st)) =
     (case promiseAll (map (\<lambda>f. snd (fileToContentBlock f))
                         (filter (\<lambda>f. isFileSupported f \<and> \<not> isDuplicate f snap) (pastedFiles its))) order of
        Fulfilled bs \<Rightarrow> contentBlocks st @ bs
      | _ \<Rightarrow> contentBlocks st)"
  by (simp add: handlePaste_def Let_def awaitAll_def comp_def promiseAll_Nil isDuplicate_paste_eq
        toast_error_def setContentBlocks_def split: promise.splits prod.splits)

lemma handlePaste_outcome:
  "fst (handlePaste snap (Some its) order st) =
     (case promiseAll (map (\<lambda>f. snd (fileToContentBlock f))
                         (filter (\<lambda>f. isFileSupported f \<and> \<not> isDuplicate f snap) (pastedFiles its))) order of
        Fulfilled bs \<Rightarrow> Fulfilled ()
      | Rejected e \<Rightarrow> Rejected e
      | Pending \<Rightarrow> Pending)"
  by (simp add: handlePaste_def Let_def awaitAll_def comp_def promiseAll_Nil isDuplicate_paste_eq
        toast_error_def setContentBlocks_def split: promise.splits prod.splits)

lemma entry_blocks:
  assumes "H = handleFileUpload snap (Some batch) \<or>
           (\<exists>e dt. dataTransfer e = Some dt \<and> files dt = batch \<and> H = handleWindowDrop snap e) \<or>
           (\<exists>its. pastedFiles its = batch \<and> H = handlePaste snap (Some its))"
  shows "contentBlocks (snd (H order st)) =
     (case promiseAll (map (\<lambda>f. snd (fileToContentBlock f))
                         (filter (\<lambda>f. isFileSupported f \<and> \<not> isDuplicate f snap) batch)) order of
        Fulfilled bs \<Rightarrow> contentBlocks st @ bs
      | _ \<Rightarrow> contentBlocks st)"
  using assms handleFileUpload_blocks handleWindowDrop_blocks handlePaste_blocks
  by (elim disjE exE conjE) simp_all

lemma entry_outcome:
  assumes "H = handleFileUpload snap (Some batch) \<or>
           (\<exists>e dt. dataTransfer e = Some dt \<and> files dt = batch \<and> H = handleWindowDrop snap e) \<or>
           (\<exists>its. pastedFiles its = batch \<and> H = handlePaste snap (Some its))"
  shows "fst (H order st) =
     (case promiseAll (map (\<lambda>f. snd (fileToContentBlock f))
                         (filter (\<lambda>f. isFileSupported f \<and> \<not> isDuplicate f snap) batch)) order of
        Fulfilled bs \<Rightarrow> Fulfilled ()
      | Rejected e \<Rightarrow> Rejected e
      | Pending \<Rightarrow> Pending)"
  using assms handleFileUpload_outcome handleWindowDrop_outcome handlePaste_outcome
  by (elim disjE exE conjE) simp_all

lemma unique_conversions_fulfilled:
  assumes "\<forall>f\<in>set U. \<exists>b. snd (fileToContentBlock f) = Inr b" and "{..<length U} \<subseteq> set order"
  shows "promiseAll (map (\<lambda>f. snd (fileToContentBlock f)) U) order =
           Fulfilled (map (\<lambda>f. projr (snd (fileToContentBlock f))) U)"
proof -
  let ?ps = "map (\<lambda>f. snd (fileToContentBlock f)) U"
  have "\<forall>i<length ?ps. \<exists>v. ?ps ! i = Inr v"
    using assms(1) by (auto simp: all_set_conv_all_nth)
  moreover from assms(2) have "{..<length ?ps} \<subseteq> set order" by simp
  ultimately have "promiseAll ?ps order = Fulfilled (map projr ?ps)"
    by (rule promiseAll_complete)
  then show ?thesis by (simp add: comp_def)
qed

section \<open>Failed reads\<close>

text \<open>
  Claim C3. In an ingestion call through any of the three entry points, when the
  conversion of one of the unique files of the batch is rejected, the call does not
  complete and the collection is what it was before the call, whatever the order in which
  the reads settle: no block of the batch is appended, not even for the files whose reads
  succeed. Once every read has settled, the call has failed with a rejection.
\<close>

theorem failed_materialization_appends_nothing:
  assumes entry: "H = handleFileUpload snap (Some batch) \<or>
           (\<exists>e dt. dataTransfer e = Some dt \<and> files dt = batch \<and> H = handleWindowDrop snap e) \<or>
           (\<exists>its. pastedFiles its = batch \<and> H = handlePaste snap (Some its))"
    and unique: "file \<in> set batch" "isFileSupported file" "\<not> isDuplicate file snap"
    and fails: "snd (fileToContentBlock file) = Inl err"
  shows "contentBlocks (snd (H order st)) = contentBlocks st \<and>
         fst (H order st) \<noteq> Fulfilled () \<and>
         ({..<length (filter (\<lambda>f. isFileSupported f \<and> \<not> isDuplicate f snap) batch)} \<subseteq> set order
            \<longrightarrow> (\<exists>e. fst (H order st) = Rejected e))"
proof -
  let ?ps = "map (\<lambda>f. snd (fileToContentBlock f))
               (filter (\<lambda>f. isFileSupported f \<and> \<not> isDuplicate f snap) batch)"
  from unique fails have bad: "Inl err \<in> set ?ps" by force
  then have no: "\<And>vs. promiseAll ?ps order \<noteq> Fulfilled vs" by (rule promiseAll_rejecting)
  have "contentBlocks (snd (H order st)) = contentBlocks st"
    using no by (simp add: entry_blocks[OF entry] split: promise.splits)
  moreover have "fst (H order st) \<noteq> Fulfilled ()"
    using no by (simp add: entry_outcome[OF entry] split: promise.splits)
  moreover have "\<exists>e. fst (H order st) = Rejected e"
    if "{..<length (filter (\<lambda>f. isFileSupported f \<and> \<not> isDuplicate f snap) batch)} \<subseteq> set order"
  proof -
    from that have "{..<length ?ps} \<subseteq> set order" by simp
    with bad obtain e where "promiseAll ?ps order = Rejected e"
      using promiseAll_rejects by blast
    then show ?thesis by (simp add: entry_outcome[OF entry])
  qed
  ultimately show ?thesis by blast
qed

theorem failed_materialization_appends_nothing_witness:
  "contentBlocks
     (snd (handleFileUpload []
             (Some [\<lparr>name = ''a.txt'', type = ''text/plain'',
                      readAsDataURL = Some ''data:text/plain;base64,aGk='', readAsText = Some ''hi''\<rparr>,
                    \<lparr>name = ''b.txt'', type = ''text/plain'',
                      readAsDataURL = None, readAsText = None\<rparr>])
             [0, 1] (useFileUpload []))) = [] \<and>
   fst (handleFileUpload []
          (Some [\<lparr>name = ''a.txt'', type = ''text/plain'',
                   readAsDataURL = Some ''data:text/plain;base64,aGk='', readAsText = Some ''hi''\<rparr>,
                 \<lparr>name = ''b.txt'', type = ''text/plain'',
                   readAsDataURL = None, readAsText = None\<rparr>])
          [0, 1] (useFileUpload [])) \<noteq> Fulfilled ()"
proof -
  let ?a = "\<lparr>name = ''a.txt'', type = ''text/plain'',
             readAsDataURL = Some ''data:text/plain;base64,aGk='', readAsText = Some ''hi''\<rparr>"
  let ?b = "\<lparr>name = ''b.txt'', type = ''text/plain'',
             readAsDataURL = None, readAsText = None\<rparr>"
  have sup: "isFileSupported ?b" by code_simp
  have nodup: "\<not> isDuplicate ?b []" by code_simp
  have fails: "snd (fileToContentBlock ?b) = Inl ReadFailure" by code_simp
  have init: "contentBlocks (useFileUpload []) = []" by (simp add: useFileUpload_def)
  from failed_materialization_appends_nothing
         [of "handleFileUpload [] (Some [?a, ?b])" "[]" "[?a, ?b]" ?b ReadFailure "[0, 1]"
             "useFileUpload []", OF _ _ sup nodup fails]
  show ?thesis by (simp add: init)
qed

section \<open>Order of the appended blocks\<close>

text \<open>
  Claim C7. When an ingestion call through any of the three entry points completes, the
  collection is the collection before the append followed by the blocks of the unique
  files, one for each and in the order of the files in the input, in whatever order the
  reads settled; and the call does complete when every unique file converts and every
  read settles.
\<close>

theorem blocks_appended_in_input_order:
  assumes entry: "H = handleFileUpload snap (Some batch) \<or>
           (\<exists>e dt. dataTransfer e = Some dt \<and> files dt = batch \<and> H = handleWindowDrop snap e) \<or>
           (\<exists>its. pastedFiles its = batch \<and> H = handlePaste snap (Some its))"
  shows "(fst (H order st) = Fulfilled () \<longrightarrow>
            contentBlocks (snd (H order st)) =
              contentBlocks st @
              map (\<lambda>f. projr (snd (fileToContentBlock f)))
                (filter (\<lambda>f. isFileSupported f \<and> \<not> isDuplicate f snap) batch)) \<and>
         ((\<forall>f\<in>set batch. isFileSupported f \<and> \<not> isDuplicate f snap \<longrightarrow>
              (\<exists>b. snd (fileToContentBlock f) = Inr b)) \<and>
          {..<length (filter (\<lambda>f. isFileSupported f \<and> \<not> isDuplicate f snap) batch)} \<subseteq> set order \<longrightarrow>
            fst (H order st) = Fulfilled ())"
proof (intro conjI impI)
  let ?U = "filter (\<lambda>f. isFileSupported f \<and> \<not> isDuplicate f snap) batch"
  let ?ps = "map (\<lambda>f. snd (fileToContentBlock f)) ?U"
  assume "fst (H order st) = Fulfilled ()"
  then obtain bs where bs: "promiseAll ?ps order = Fulfilled bs"
    by (auto simp: entry_outcome[OF entry] split: promise.splits)
  then have "?ps = map Inr bs" by (rule promiseAll_Fulfilled)
  then have "map projr ?ps = bs" by (simp add: comp_def)
  then have "bs = map (\<lambda>f. projr (snd (fileToContentBlock f))) ?U" by (simp add: comp_def)
  with bs show "contentBlocks (snd (H order st)) =
                  contentBlocks st @ map (\<lambda>f. projr (snd (fileToContentBlock f))) ?U"
    by (simp add: entry_blocks[OF entry])
next
  let ?U = "filter (\<lambda>f. isFileSupported f \<and> \<not> isDuplicate f snap) batch"
  let ?ps = "map (\<lambda>f. snd (fileToContentBlock f)) ?U"
  assume a: "(\<forall>f\<in>set batch. isFileSupported f \<and> \<not> isDuplicate f snap \<longrightarrow>
              (\<exists>b. snd (fileToContentBlock f) = Inr b)) \<and> {..<length ?U} \<subseteq> set order"
  have "\<forall>i<length ?ps. \<exists>v. ?ps ! i = Inr v"
  proof (intro allI impI)
    fix i assume "i < length ?ps"
    then have i: "i < length ?U" by simp
    then have "?U ! i \<in> set ?U" by (rule nth_mem)
    with a have "\<exists>b. snd (fileToContentBlock (?U ! i)) = Inr b" by auto
    with i show "\<exists>v. ?ps ! i = Inr v" by simp
  qed
  moreover from a have "{..<length ?ps} \<subseteq> set order" by simp
  ultimately have "promiseAll ?ps order = Fulfilled (map projr ?ps)"
    by (rule promiseAll_complete)
  then show "fst (H order st) = Fulfilled ()"
    by (simp add: entry_outcome[OF entry])
qed

theorem blocks_appended_in_input_order_witness:
  "fst (handleFileUpload []
     (Some [\<lparr>name = ''A.png'', type = ''image/png'',
              readAsDataURL = Some ''data:image/png;base64,iVBORw=='', readAsText = Some ''?PNG''\<rparr>,
            \<lparr>name = ''B.pdf'', type = ''application/pdf'',
              readAsDataURL = Some ''data:application/pdf;base64,JVBERi0='', readAsText = Some ''%PDF-''\<rparr>,
            \<lparr>name = ''C.txt'', type = ''text/plain'',
              readAsDataURL = Some ''data:text/plain;base64,aGk='', readAsText = Some ''hi''\<rparr>])
     [2, 0, 1] (useFileUpload [])) = Fulfilled () \<and>
   contentBlocks (snd (handleFileUpload []
     (Some [\<lparr>name = ''A.png'', type = ''image/png'',
              readAsDataURL = Some ''data:image/png;base64,iVBORw=='', readAsText = Some ''?PNG''\<rparr>,
            \<lparr>name = ''B.pdf'', type = ''application/pdf'',
              readAsDataURL = Some ''data:application/pdf;base64,JVBERi0='', readAsText = Some ''%PDF-''\<rparr>,
            \<lparr>name = ''C.txt'', type = ''text/plain'',
              readAsDataURL = Some ''data:text/plain;base64,aGk='', readAsText = Some ''hi''\<rparr>])
     [2, 0, 1] (useFileUpload []))) =
     [Base64ContentBlock ''image'' ''base64'' (Some ''image/png'') (Some ''iVBORw=='')
        (Some [(''name'', ''A.png'')]),
      Base64ContentBlock ''file'' ''base64'' (Some ''application/pdf'') (Some ''JVBERi0='')
        (Some [(''filename'', ''B.pdf'')]),
      TextBlock (''File: C.txt'' @ [CHR 0x0A, CHR 0x0A] @ ''hi'')]"
proof -
  let ?A = "\<lparr>name = ''A.png'', type = ''image/png'',
              readAsDataURL = Some ''data:image/png;base64,iVBORw=='', readAsText = Some ''?PNG''\<rparr>"
  let ?B = "\<lparr>name = ''B.pdf'', type = ''application/pdf'',
              readAsDataURL = Some ''data:application/pdf;base64,JVBERi0='', readAsText = Some ''%PDF-''\<rparr>"
  let ?C = "\<lparr>name = ''C.txt'', type = ''text/plain'',
              readAsDataURL = Some ''data:text/plain;base64,aGk='', readAsText = Some ''hi''\<rparr>"
  let ?H = "handleFileUpload [] (Some [?A, ?B, ?C])"
  have entry: "?H = handleFileUpload [] (Some [?A, ?B, ?C]) \<or>
           (\<exists>e dt. dataTransfer e = Some dt \<and> files dt = [?A, ?B, ?C] \<and> ?H = handleWindowDrop [] e) \<or>
           (\<exists>its. pastedFiles its = [?A, ?B, ?C] \<and> ?H = handlePaste [] (Some its))"
    by simp
  have unique: "filter (\<lambda>f. isFileSupported f \<and> \<not> isDuplicate f []) [?A, ?B, ?C] = [?A, ?B, ?C]"
    by code_simp
  have a: "snd (fileToContentBlock ?A) =
             Inr (Base64ContentBlock ''image'' ''base64'' (Some ''image/png'') (Some ''iVBORw=='')
                    (Some [(''name'', ''A.png'')]))"
    by code_simp
  have b: "snd (fileToContentBlock ?B) =
             Inr (Base64ContentBlock ''file'' ''base64'' (Some ''application/pdf'') (Some ''JVBERi0='')
                    (Some [(''filename'', ''B.pdf'')]))"
    by code_simp
  have c: "snd (fileToContentBlock ?C) = Inr (TextBlock (''File: C.txt'' @ [CHR 0x0A, CHR 0x0A] @ ''hi''))"
    by code_simp
  have reads: "\<forall>f\<in>set [?A, ?B, ?C]. isFileSupported f \<and> \<not> isDuplicate f [] \<longrightarrow>
                 (\<exists>b. snd (fileToContentBlock f) = Inr b)"
    using a b c by simp
  have settles: "{..<length (filter (\<lambda>f. isFileSupported f \<and> \<not> isDuplicate f []) [?A, ?B, ?C])}
                   \<subseteq> set [2, 0, 1]"
    unfolding unique by auto
  have init: "contentBlocks (useFileUpload []) = []" by (simp add: useFileUpload_def)
  note main = blocks_appended_in_input_order[OF entry, of "[2, 0, 1]" "useFileUpload []"]
  from main reads settles have ful: "fst (?H [2, 0, 1] (useFileUpload [])) = Fulfilled ()"
    by blast
  have rhs: "map (\<lambda>f. projr (snd (fileToContentBlock f)))
               (filter (\<lambda>f. isFileSupported f \<and> \<not> isDuplicate f []) [?A, ?B, ?C]) =
             [Base64ContentBlock ''image'' ''base64'' (Some ''image/png'') (Some ''iVBORw=='')
                (Some [(''name'', ''A.png'')]),
              Base64ContentBlock ''file'' ''base64'' (Some ''application/pdf'') (Some ''JVBERi0='')
                (Some [(''filename'', ''B.pdf'')]),
              TextBlock (''File: C.txt'' @ [CHR 0x0A, CHR 0x0A] @ ''hi'')]"
    unfolding unique by (simp add: a b c)
  from ful main have blocks: "contentBlocks (snd (?H [2, 0, 1] (useFileUpload []))) =
                   contentBlocks (useFileUpload []) @
                   map (\<lambda>f. projr (snd (fileToContentBlock f)))
                     (filter (\<lambda>f. isFileSupported f \<and> \<not> isDuplicate f []) [?A, ?B, ?C])"
    by blast
  show ?thesis unfolding blocks rhs init using ful by simp
qed

section \<open>Files of one name in one batch\<close>

text \<open>
  Claim C6. The duplicate predicate is evaluated against the collection captured before
  the call, never against the other files of the batch: when two supported files of the
  same name stand in one batch and neither is a duplicate of a block of the captured
  collection, both are unique, and when the unique files of the batch convert and their
  reads settle, the blocks of both are appended, each at its place in the order of the
  input.
\<close>

theorem same_name_in_one_batch_both_appended:
  assumes entry: "H = handleFileUpload snap (Some batch) \<or>
           (\<exists>e dt. dataTransfer e = Some dt \<and> files dt = batch \<and> H = handleWindowDrop snap e) \<or>
           (\<exists>its. pastedFiles its = batch \<and> H = handlePaste snap (Some its))"
    and batch: "batch = xs @ f1 # ys @ f2 # zs"
    and same: "name f1 = name f2"
    and f1: "isFileSupported f1" "\<not> isDuplicate f1 snap"
    and f2: "isFileSupported f2" "\<not> isDuplicate f2 snap"
    and reads: "\<forall>f\<in>set batch. isFileSupported f \<and> \<not> isDuplicate f snap \<longrightarrow>
                  (\<exists>b. snd (fileToContentBlock f) = Inr b)"
    and settles: "{..<length (filter (\<lambda>f. isFileSupported f \<and> \<not> isDuplicate f snap) batch)}
                    \<subseteq> set order"
  shows "fst (H order st) = Fulfilled () \<and>
         contentBlocks (snd (H order st)) =
           contentBlocks st @
           map (\<lambda>f. projr (snd (fileToContentBlock f)))
             (filter (\<lambda>f. isFileSupported f \<and> \<not> isDuplicate f snap) xs) @
           projr (snd (fileToContentBlock f1)) #
           map (\<lambda>f. projr (snd (fileToContentBlock f)))
             (filter (\<lambda>f. isFileSupported f \<and> \<not> isDuplicate f snap) ys) @
           projr (snd (fileToContentBlock f2)) #
           map (\<lambda>f. projr (snd (fileToContentBlock f)))
             (filter (\<lambda>f. isFileSupported f \<and> \<not> isDuplicate f snap) zs)"
proof -
  let ?P = "\<lambda>f. isFileSupported f \<and> \<not> isDuplicate f snap"
  let ?blk = "\<lambda>f. projr (snd (fileToContentBlock f))"
  have "\<forall>f\<in>set (filter ?P batch). \<exists>b. snd (fileToContentBlock f) = Inr b"
    using reads by simp
  then have all: "promiseAll (map (\<lambda>f. snd (fileToContentBlock f)) (filter ?P batch)) order =
                    Fulfilled (map ?blk (filter ?P batch))"
    using settles by (rule unique_conversions_fulfilled)
  have split: "filter ?P batch = filter ?P xs @ f1 # filter ?P ys @ f2 # filter ?P zs"
    using f1 f2 by (simp add: batch)
  have "fst (H order st) = Fulfilled ()"
    using all by (simp add: entry_outcome[OF entry])
  moreover have "contentBlocks (snd (H order st)) = contentBlocks st @ map ?blk (filter ?P batch)"
    using all by (simp add: entry_blocks[OF entry])
  ultimately show ?thesis by (simp add: split)
qed

theorem same_name_in_one_batch_both_appended_witness:
  "handleFileUpload []
     (Some [\<lparr>name = ''a.txt'', type = ''text/plain'', readAsDataURL = None, readAsText = Some ''one''\<rparr>,
            \<lparr>name = ''a.txt'', type = ''text/plain'', readAsDataURL = None, readAsText = Some ''two''\<rparr>])
     [1, 0] (useFileUpload []) =
     (Fulfilled (),
      \<lparr>contentBlocks = [TextBlock (''File: a.txt'' @ [CHR 0x0A, CHR 0x0A] @ ''one''),
                        TextBlock (''File: a.txt'' @ [CHR 0x0A, CHR 0x0A] @ ''two'')],
       dragOver = False, dragCounter = 0, toasts = [],
       defaultPrevented = False, propagationStopped = False, targetValue = []\<rparr>) \<and>
   contentBlocks
     (snd (handleFileUpload []
       (Some [\<lparr>name = ''a.txt'', type = ''text/plain'', readAsDataURL = None, readAsText = Some ''one''\<rparr>,
              \<lparr>name = ''a.txt'', type = ''text/plain'', readAsDataURL = None, readAsText = Some ''two''\<rparr>])
       [1, 0] (useFileUpload []))) =
     [projr (snd (fileToContentBlock
        \<lparr>name = ''a.txt'', type = ''text/plain'', readAsDataURL = None, readAsText = Some ''one''\<rparr>)),
      projr (snd (fileToContentBlock
        \<lparr>name = ''a.txt'', type = ''text/plain'', readAsDataURL = None, readAsText = Some ''two''\<rparr>))]"
proof -
  let ?f1 = "\<lparr>name = ''a.txt'', type = ''text/plain'', readAsDataURL = None, readAsText = Some ''one''\<rparr>"
  let ?f2 = "\<lparr>name = ''a.txt'', type = ''text/plain'', readAsDataURL = None, readAsText = Some ''two''\<rparr>"
  have entry: "handleFileUpload [] (Some [?f1, ?f2]) = handleFileUpload [] (Some [?f1, ?f2]) \<or>
           (\<exists>e dt. dataTransfer e = Some dt \<and> files dt = [?f1, ?f2] \<and>
              handleFileUpload [] (Some [?f1, ?f2]) = handleWindowDrop [] e) \<or>
           (\<exists>its. pastedFiles its = [?f1, ?f2] \<and>
              handleFileUpload [] (Some [?f1, ?f2]) = handlePaste [] (Some its))"
    by simp
  have batch: "[?f1, ?f2] = [] @ ?f1 # [] @ ?f2 # []" by simp
  have same: "name ?f1 = name ?f2" by simp
  have s1: "isFileSupported ?f1" by code_simp
  have d1: "\<not> isDuplicate ?f1 []" by code_simp
  have s2: "isFileSupported ?f2" by code_simp
  have d2: "\<not> isDuplicate ?f2 []" by code_simp
  have reads: "\<forall>f\<in>set [?f1, ?f2]. isFileSupported f \<and> \<not> isDuplicate f [] \<longrightarrow>
                  (\<exists>b. snd (fileToContentBlock f) = Inr b)"
  proof -
    have "snd (fileToContentBlock ?f1) = Inr (TextBlock (''File: a.txt'' @ [CHR 0x0A, CHR 0x0A] @ ''one''))"
      by code_simp
    moreover
    have "snd (fileToContentBlock ?f2) = Inr (TextBlock (''File: a.txt'' @ [CHR 0x0A, CHR 0x0A] @ ''two''))"
      by code_simp
    ultimately show ?thesis by simp
  qed
  have settles: "{..<length (filter (\<lambda>f. isFileSupported f \<and> \<not> isDuplicate f []) [?f1, ?f2])}
                    \<subseteq> set [1, 0]"
    using s1 d1 s2 d2 by auto
  have run: "handleFileUpload [] (Some [?f1, ?f2]) [1, 0] (useFileUpload []) =
     (Fulfilled (),
      \<lparr>contentBlocks = [TextBlock (''File: a.txt'' @ [CHR 0x0A, CHR 0x0A] @ ''one''),
                        TextBlock (''File: a.txt'' @ [CHR 0x0A, CHR 0x0A] @ ''two'')],
       dragOver = False, dragCounter = 0, toasts = [],
       defaultPrevented = False, propagationStopped = False, targetValue = []\<rparr>)"
    by code_simp
  have init: "contentBlocks (useFileUpload []) = []" by (simp add: useFileUpload_def)
  from same_name_in_one_batch_both_appended
         [OF entry batch same s1 d1 s2 d2 reads settles, of "useFileUpload []"]
  show ?thesis using run by (simp add: init)
qed

section \<open>The two copies of the duplicate predicate\<close>

text \<open>
  Claim C9. The duplicate predicate that \<open>handlePaste\<close> declares inline returns, for
  every file and every collection, what the hook-level \<open>isDuplicate\<close> returns on that
  file and that collection; so the duplicate and the unique files that paste filters out
  of a batch are those that selection and drop filter out of it.
\<close>

theorem paste_isDuplicate_agrees:
  "isDuplicate_paste contentBlocks' file = isDuplicate file contentBlocks' \<and>
   filter (isDuplicate_paste contentBlocks') batch = filter (\<lambda>f. isDuplicate f contentBlocks') batch \<and>
   filter (\<lambda>f. \<not> isDuplicate_paste contentBlocks' f) batch =
     filter (\<lambda>f. \<not> isDuplicate f contentBlocks') batch"
proof -
  have eq: "isDuplicate_paste contentBlocks' = (\<lambda>f. isDuplicate f contentBlocks')"
    by (rule ext) (simp add: isDuplicate_paste_def isDuplicate_def)
  show ?thesis by (simp add: eq)
qed

section \<open>The identity rule of text files\<close>

lemma some_sameTextFile:
  "some (sameTextFile file) blocks \<longleftrightarrow>
     (\<exists>t. TextBlock t \<in> set blocks \<and> startsWith t (''File: '' @ name file @ [CHR 0x0A, CHR 0x0A]))"
proof
  assume "some (sameTextFile file) blocks"
  then obtain b where b: "b \<in> set blocks" "sameTextFile file b"
    by (auto simp: some_def list_ex_iff)
  show "\<exists>t. TextBlock t \<in> set blocks \<and> startsWith t (''File: '' @ name file @ [CHR 0x0A, CHR 0x0A])"
  proof (cases b)
    case (TextBlock t)
    with b have "TextBlock t \<in> set blocks"
      and "startsWith t (''File: '' @ name file @ [CHR 0x0A, CHR 0x0A])"
      by (simp_all add: filePrefix_def)
    then show ?thesis by blast
  next
    case (Base64ContentBlock ty st mt d md)
    with b show ?thesis by simp
  qed
next
  assume "\<exists>t. TextBlock t \<in> set blocks \<and> startsWith t (''File: '' @ name file @ [CHR 0x0A, CHR 0x0A])"
  then obtain t where "TextBlock t \<in> set blocks" "sameTextFile file (TextBlock t)"
    by (auto simp: filePrefix_def)
  then show "some (sameTextFile file) blocks"
    unfolding some_def list_ex_iff by blast
qed

text \<open>
  Claim C5. A file whose lower-cased name ends with an allow-listed text extension is
  flagged as a duplicate exactly when the collection holds a text block whose text starts
  with \<open>"File: " + file.name + "\n\n"\<close>, the name taken as it is. The witness is the
  example of the claim: against the text block of \<open>notes.txt\<close>, \<open>notes.txt\<close> is a
  duplicate and \<open>Notes.txt\<close> is not.
\<close>

theorem text_duplicate_rule:
  assumes "some (\<lambda>ext. endsWith (toLowerCase (name file)) ext) SUPPORTED_TEXT_EXTENSIONS"
  shows "isDuplicate file blocks \<longleftrightarrow>
     (\<exists>t. TextBlock t \<in> set blocks \<and> startsWith t (''File: '' @ name file @ [CHR 0x0A, CHR 0x0A]))"
  using assms by (simp add: isDuplicate_def some_sameTextFile)

theorem text_duplicate_rule_witness:
  "isDuplicate \<lparr>name = ''notes.txt'', type = ''text/plain'', readAsDataURL = None, readAsText = Some ''x''\<rparr>
     [TextBlock (''File: notes.txt'' @ [CHR 0x0A, CHR 0x0A] @ ''hello'')] \<and>
   \<not> isDuplicate \<lparr>name = ''Notes.txt'', type = ''text/plain'', readAsDataURL = None, readAsText = Some ''x''\<rparr>
     [TextBlock (''File: notes.txt'' @ [CHR 0x0A, CHR 0x0A] @ ''hello'')]"
proof -
  let ?lower = "\<lparr>name = ''notes.txt'', type = ''text/plain'', readAsDataURL = None, readAsText = Some ''x''\<rparr>"
  let ?upper = "\<lparr>name = ''Notes.txt'', type = ''text/plain'', readAsDataURL = None, readAsText = Some ''x''\<rparr>"
  have l: "some (\<lambda>ext. endsWith (toLowerCase (name ?lower)) ext) SUPPORTED_TEXT_EXTENSIONS"
    by code_simp
  have u: "some (\<lambda>ext. endsWith (toLowerCase (name ?upper)) ext) SUPPORTED_TEXT_EXTENSIONS"
    by code_simp
  show ?thesis
    using text_duplicate_rule[OF l, of "[TextBlock (''File: notes.txt'' @ [CHR 0x0A, CHR 0x0A] @ ''hello'')]"]
          text_duplicate_rule[OF u, of "[TextBlock (''File: notes.txt'' @ [CHR 0x0A, CHR 0x0A] @ ''hello'')]"]
    by (simp add: startsWith_def)
qed

section \<open>The drag counter\<close>

lemma handleWindowDrop_counter: "dragCounter (snd (handleWindowDrop snap e order st)) = 0"
  by (simp add: handleWindowDrop_def Let_def awaitAll_def toast_error_def setContentBlocks_def
        setDragOver_def split: promise.splits prod.splits option.splits)

lemma dispatch_counter: "0 \<le> dragCounter st \<Longrightarrow> 0 \<le> dragCounter (dispatch ev st)"
  by (cases ev)
     (simp_all add: handleWindowDragEnter_def handleWindowDragLeave_def handleWindowDragEnd_def
        handleWindowDrop_counter setDragOver_def freshEvent_def Let_def)

lemma run_counter: "0 \<le> dragCounter st \<Longrightarrow> 0 \<le> dragCounter (run evs st)"
  by (induction evs arbitrary: st) (simp_all add: dispatch_counter)

text \<open>
  Claim C4. After any run of window-level drag-enter, drag-leave, drop and drag-end
  events the drag counter is not negative, provided it was not negative before; a
  qualifying drag-leave takes the counter to its predecessor clamped at zero; and from a
  counter at zero, two qualifying enters followed by three qualifying leaves end with the
  counter at zero and the hover flag false.
\<close>

theorem drag_counter_never_negative:
  "(0 \<le> dragCounter st \<longrightarrow> 0 \<le> dragCounter (run evs st)) \<and>
   (hasFiles e \<longrightarrow> dragCounter (handleWindowDragLeave e st) = max 0 (dragCounter st - 1)) \<and>
   (dragCounter st = 0 \<and> hasFiles e1 \<and> hasFiles e2 \<and> hasFiles l1 \<and> hasFiles l2 \<and> hasFiles l3 \<longrightarrow>
      dragCounter (run [DragEnter e1, DragEnter e2, DragLeave l1, DragLeave l2, DragLeave l3] st) = 0 \<and>
      \<not> dragOver (run [DragEnter e1, DragEnter e2, DragLeave l1, DragLeave l2, DragLeave l3] st))"
proof (intro conjI impI)
  assume "0 \<le> dragCounter st"
  then show "0 \<le> dragCounter (run evs st)" by (rule run_counter)
next
  assume "hasFiles e"
  then show "dragCounter (handleWindowDragLeave e st) = max 0 (dragCounter st - 1)"
    by (simp add: handleWindowDragLeave_def setDragOver_def Let_def)
next
  assume a: "dragCounter st = 0 \<and> hasFiles e1 \<and> hasFiles e2 \<and> hasFiles l1 \<and> hasFiles l2 \<and> hasFiles l3"
  then show "dragCounter (run [DragEnter e1, DragEnter e2, DragLeave l1, DragLeave l2, DragLeave l3] st) = 0"
    by (simp add: handleWindowDragEnter_def handleWindowDragLeave_def setDragOver_def
          freshEvent_def Let_def)
  from a show "\<not> dragOver (run [DragEnter e1, DragEnter e2, DragLeave l1, DragLeave l2, DragLeave l3] st)"
    by (simp add: handleWindowDragEnter_def handleWindowDragLeave_def setDragOver_def
          freshEvent_def Let_def)
qed

theorem drag_counter_never_negative_witness:
  "dragCounter (run [DragEnter \<lparr>dataTransfer = Some \<lparr>types = [''Files''], files = []\<rparr>\<rparr>,
                     DragEnter \<lparr>dataTransfer = Some \<lparr>types = [''Files''], files = []\<rparr>\<rparr>,
                     DragLeave \<lparr>dataTransfer = Some \<lparr>types = [''Files''], files = []\<rparr>\<rparr>,
                     DragLeave \<lparr>dataTransfer = Some \<lparr>types = [''Files''], files = []\<rparr>\<rparr>,
                     DragLeave \<lparr>dataTransfer = Some \<lparr>types = [''Files''], files = []\<rparr>\<rparr>]
                  (useFileUpload [])) = 0 \<and>
   \<not> dragOver (run [DragEnter \<lparr>dataTransfer = Some \<lparr>types = [''Files''], files = []\<rparr>\<rparr>,
                     DragEnter \<lparr>dataTransfer = Some \<lparr>types = [''Files''], files = []\<rparr>\<rparr>,
                     DragLeave \<lparr>dataTransfer = Some \<lparr>types = [''Files''], files = []\<rparr>\<rparr>,
                     DragLeave \<lparr>dataTransfer = Some \<lparr>types = [''Files''], files = []\<rparr>\<rparr>,
                     DragLeave \<lparr>dataTransfer = Some \<lparr>types = [''Files''], files = []\<rparr>\<rparr>]
                  (useFileUpload [])) \<and>
   0 \<le> dragCounter (run [DragLeave \<lparr>dataTransfer = Some \<lparr>types = [''Files''], files = []\<rparr>\<rparr>]
                       (useFileUpload [])) \<and>
   dragCounter (handleWindowDragLeave \<lparr>dataTransfer = Some \<lparr>types = [''Files''], files = []\<rparr>\<rparr>
                  (useFileUpload [])) = 0"
proof -
  let ?e = "\<lparr>dataTransfer = Some \<lparr>types = [''Files''], files = []\<rparr>\<rparr>"
  have q: "hasFiles ?e" by (simp add: hasFiles_def includes_elem_def)
  have z: "dragCounter (useFileUpload []) = 0" by (simp add: useFileUpload_def)
  from drag_counter_never_negative[of "useFileUpload []" "[DragLeave ?e]" ?e ?e ?e ?e ?e ?e] q z
  show ?thesis by simp
qed

section \<open>The gate and the converter\<close>

lemma allow_lists_agree:
  "SUPPORTED_FILE_TYPES = supportedFileTypes" "SUPPORTED_TEXT_EXTENSIONS = supportedTextExtensions"
  by (simp_all add: SUPPORTED_FILE_TYPES_def supportedFileTypes_def supportedImageTypes_def
        supportedPdfTypes_def supportedTextTypes_def SUPPORTED_TEXT_EXTENSIONS_def
        supportedTextExtensions_def)

lemma includes_supportedFileTypes:
  "includes_elem supportedFileTypes t \<longleftrightarrow>
     includes_elem supportedImageTypes t \<or> includes_elem supportedPdfTypes t \<or>
     includes_elem supportedTextTypes t"
  by (auto simp: supportedFileTypes_def includes_elem_def)

text \<open>
  Claim C10. The gate of the hook and the gate of the converter use the same allow-lists,
  so for a file that the hook's \<open>isFileSupported\<close> accepts the converter raises no toast
  and never rejects with an unsupported-type error; when the read of the file succeeds it
  yields an image block for an image type, a document block for the PDF type, and a text
  block otherwise.
\<close>

theorem gate_covers_converter:
  assumes "isFileSupported file"
  shows "SUPPORTED_FILE_TYPES = supportedFileTypes \<and>
         SUPPORTED_TEXT_EXTENSIONS = supportedTextExtensions \<and>
         fst (fileToContentBlock file) = [] \<and>
         (\<forall>msg. snd (fileToContentBlock file) \<noteq> Inl (Error msg)) \<and>
         (includes_elem supportedImageTypes (type file) \<and> readAsDataURL file = Some url \<longrightarrow>
            snd (fileToContentBlock file) =
              Inr (Base64ContentBlock ''image'' ''base64'' (Some (type file))
                     (index (split url (CHR '','')) 1) (Some [(''name'', name file)]))) \<and>
         (\<not> includes_elem supportedImageTypes (type file) \<and> type file = ''application/pdf'' \<and>
          readAsDataURL file = Some url \<longrightarrow>
            snd (fileToContentBlock file) =
              Inr (Base64ContentBlock ''file'' ''base64'' (Some ''application/pdf'')
                     (index (split url (CHR '','')) 1) (Some [(''filename'', name file)]))) \<and>
         (\<not> includes_elem supportedImageTypes (type file) \<and> type file \<noteq> ''application/pdf'' \<and>
          readAsText file = Some content \<longrightarrow>
            snd (fileToContentBlock file) =
              Inr (TextBlock (''File: '' @ name file @ [CHR 0x0A, CHR 0x0A] @ content)))"
proof -
  from assms
  have sup: "includes_elem supportedImageTypes (type file) \<or>
             includes_elem supportedPdfTypes (type file) \<or>
             includes_elem supportedTextTypes (type file) \<or>
             some (\<lambda>ext. endsWith (toLowerCase (name file)) ext) supportedTextExtensions"
    by (auto simp: isFileSupported_def allow_lists_agree includes_supportedFileTypes Let_def
          split: if_splits)
  have pdf: "includes_elem supportedPdfTypes (type file) \<longleftrightarrow> type file = ''application/pdf''"
    by (auto simp: includes_elem_def supportedPdfTypes_def)
  have toasts: "fst (fileToContentBlock file) = []"
    using sup
    by (auto simp: fileToContentBlock_def includes_supportedFileTypes Let_def fileToBase64_def
          split: option.splits sum.splits)
  have noerr: "\<forall>msg. snd (fileToContentBlock file) \<noteq> Inl (Error msg)"
    using sup
    by (auto simp: fileToContentBlock_def includes_supportedFileTypes Let_def fileToBase64_def
          split: option.splits sum.splits)
  have image: "includes_elem supportedImageTypes (type file) \<and> readAsDataURL file = Some url \<longrightarrow>
            snd (fileToContentBlock file) =
              Inr (Base64ContentBlock ''image'' ''base64'' (Some (type file))
                     (index (split url (CHR '','')) 1) (Some [(''name'', name file)]))"
    by (simp add: fileToContentBlock_def includes_supportedFileTypes Let_def fileToBase64_def)
  have document: "\<not> includes_elem supportedImageTypes (type file) \<and>
          type file = ''application/pdf'' \<and> readAsDataURL file = Some url \<longrightarrow>
            snd (fileToContentBlock file) =
              Inr (Base64ContentBlock ''file'' ''base64'' (Some ''application/pdf'')
                     (index (split url (CHR '','')) 1) (Some [(''filename'', name file)]))"
  proof (intro impI)
    assume a: "\<not> includes_elem supportedImageTypes (type file) \<and>
               type file = ''application/pdf'' \<and> readAsDataURL file = Some url"
    then have "includes_elem supportedPdfTypes (type file)" using pdf by blast
    with a show "snd (fileToContentBlock file) =
              Inr (Base64ContentBlock ''file'' ''base64'' (Some ''application/pdf'')
                     (index (split url (CHR '','')) 1) (Some [(''filename'', name file)]))"
      by (auto simp: fileToContentBlock_def includes_supportedFileTypes Let_def fileToBase64_def)
  qed
  have plain: "\<not> includes_elem supportedImageTypes (type file) \<and>
          type file \<noteq> ''application/pdf'' \<and> readAsText file = Some content \<longrightarrow>
            snd (fileToContentBlock file) =
              Inr (TextBlock (''File: '' @ name file @ [CHR 0x0A, CHR 0x0A] @ content))"
    using sup pdf
    by (auto simp: fileToContentBlock_def includes_supportedFileTypes Let_def)
  from toasts noerr image document plain show ?thesis
    by (simp only: allow_lists_agree simp_thms)
qed

theorem gate_covers_converter_witness:
  "isFileSupported \<lparr>name = ''Makefile.PY'', type = ''application/x-unknown'',
                     readAsDataURL = Some ''data:;base64,eA=='', readAsText = Some ''x''\<rparr> \<and>
   fileToContentBlock \<lparr>name = ''Makefile.PY'', type = ''application/x-unknown'',
                        readAsDataURL = Some ''data:;base64,eA=='', readAsText = Some ''x''\<rparr> =
     ([], Inr (TextBlock (''File: Makefile.PY'' @ [CHR 0x0A, CHR 0x0A] @ ''x'')))"
proof -
  let ?f = "\<lparr>name = ''Makefile.PY'', type = ''application/x-unknown'',
             readAsDataURL = Some ''data:;base64,eA=='', readAsText = Some ''x''\<rparr>"
  have sup: "isFileSupported ?f" by code_simp
  have val: "snd (fileToContentBlock ?f) =
               Inr (TextBlock (''File: Makefile.PY'' @ [CHR 0x0A, CHR 0x0A] @ ''x''))"
    by code_simp
  from gate_covers_converter[OF sup] have "fst (fileToContentBlock ?f) = []" by blast
  with sup val show ?thesis by (simp add: prod_eq_iff)
qed

section \<open>Files of an empty or generic media type\<close>

text \<open>
  Claim C2 says that a file whose declared media type is empty or
  \<open>application/octet-stream\<close> and whose name ends with no allow-listed text extension is
  rejected as unsupported. Both media types are entries of the allow-lists, so the gate
  accepts the file on its media type alone: \<open>setup.exe\<close> with an empty media type is
  supported, and uploading it appends a text block.
\<close>

theorem generic_type_rejected_counterexample:
  "\<not> some (endsWith (toLowerCase ''setup.exe'')) SUPPORTED_TEXT_EXTENSIONS \<and>
   isFileSupported \<lparr>name = ''setup.exe'', type = '''', readAsDataURL = Some ''data:;base64,TVo='',
                     readAsText = Some ''MZ''\<rparr> \<and>
   handleFileUpload []
     (Some [\<lparr>name = ''setup.exe'', type = '''', readAsDataURL = Some ''data:;base64,TVo='',
              readAsText = Some ''MZ''\<rparr>])
     [0] (useFileUpload []) =
     (Fulfilled (),
      \<lparr>contentBlocks = [TextBlock (''File: setup.exe'' @ [CHR 0x0A, CHR 0x0A] @ ''MZ'')],
       dragOver = False, dragCounter = 0, toasts = [],
       defaultPrevented = False, propagationStopped = False, targetValue = []\<rparr>)"
  by code_simp

lemma generic_type_is_text:
  assumes "t = '''' \<or> t = ''application/octet-stream''"
  shows "includes_elem SUPPORTED_FILE_TYPES t" "includes_elem supportedFileTypes t"
    "\<not> includes_elem supportedImageTypes t" "\<not> includes_elem supportedPdfTypes t"
    "includes_elem supportedTextTypes t"
  using assms
  by (auto simp: includes_elem_def SUPPORTED_FILE_TYPES_def supportedFileTypes_def
        supportedImageTypes_def supportedPdfTypes_def supportedTextTypes_def)

text \<open>
  Claim C2, amended. A file whose declared media type is empty or
  \<open>application/octet-stream\<close> and whose lower-cased name ends with no allow-listed text
  extension is accepted by the gate, is never among the invalid files of a batch, and is
  converted to the text block \<open>"File: " + name + "\n\n" + content\<close> when its text can be
  read (a failing read rejects the conversion).
\<close>

theorem generic_type_accepted_as_text:
  assumes "type file = '''' \<or> type file = ''application/octet-stream''"
    and "\<not> some (\<lambda>ext. endsWith (toLowerCase (name file)) ext) SUPPORTED_TEXT_EXTENSIONS"
  shows "isFileSupported file \<and>
         file \<notin> set (filter (\<lambda>file. \<not> isFileSupported file) batch) \<and>
         fileToContentBlock file =
           (case readAsText file of
              None \<Rightarrow> ([], Inl ReadFailure)
            | Some text \<Rightarrow>
                ([], Inr (TextBlock (''File: '' @ name file @ [CHR 0x0A, CHR 0x0A] @ text))))"
proof -
  note g = generic_type_is_text[OF assms(1)]
  have sup: "isFileSupported file" using g(1) by (simp add: isFileSupported_def)
  have conv: "fileToContentBlock file =
           (case readAsText file of
              None \<Rightarrow> ([], Inl ReadFailure)
            | Some text \<Rightarrow>
                ([], Inr (TextBlock (''File: '' @ name file @ [CHR 0x0A, CHR 0x0A] @ text))))"
    using g(2-5) by (simp add: fileToContentBlock_def split: option.splits)
  from sup conv show ?thesis by simp
qed

theorem generic_type_accepted_as_text_witness:
  "isFileSupported \<lparr>name = ''setup.exe'', type = ''application/octet-stream'',
                     readAsDataURL = Some ''data:;base64,TVo='', readAsText = Some ''MZ''\<rparr> \<and>
   fileToContentBlock \<lparr>name = ''setup.exe'', type = ''application/octet-stream'',
                        readAsDataURL = Some ''data:;base64,TVo='', readAsText = Some ''MZ''\<rparr> =
     ([], Inr (TextBlock (''File: setup.exe'' @ [CHR 0x0A, CHR 0x0A] @ ''MZ'')))"
proof -
  let ?f = "\<lparr>name = ''setup.exe'', type = ''application/octet-stream'',
             readAsDataURL = Some ''data:;base64,TVo='', readAsText = Some ''MZ''\<rparr>"
  have t: "type ?f = '''' \<or> type ?f = ''application/octet-stream''" by simp
  have e: "\<not> some (\<lambda>ext. endsWith (toLowerCase (name ?f)) ext) SUPPORTED_TEXT_EXTENSIONS"
    by code_simp
  from generic_type_accepted_as_text[OF t e, of "[?f]"] show ?thesis by simp
qed

section \<open>Duplicates of renamed documents and images\<close>

text \<open>
  Claim C1 says that the duplicate predicate tests each file with the identity rule of the
  block the converter makes of it. The converter looks at the declared media type first
  and the duplicate predicate at the extension of the name first, so they part on a PDF or
  an image whose name ends with a text extension. The PDF \<open>scan.txt\<close> becomes a document
  block, the collection already holds that very block and the document rule
  \<open>samePdfFile\<close> matches it, yet \<open>isDuplicate\<close> answers no and the upload appends the
  block a second time; likewise for the PNG image \<open>plot.r\<close>.
\<close>

theorem pdf_with_text_extension_not_deduplicated:
  "snd (fileToContentBlock
          \<lparr>name = ''scan.txt'', type = ''application/pdf'',
           readAsDataURL = Some ''data:application/pdf;base64,JVBERi0='',
           readAsText = Some ''%PDF-''\<rparr>) =
     Inr (Base64ContentBlock ''file'' ''base64'' (Some ''application/pdf'') (Some ''JVBERi0='')
            (Some [(''filename'', ''scan.txt'')])) \<and>
   samePdfFile
     \<lparr>name = ''scan.txt'', type = ''application/pdf'',
      readAsDataURL = Some ''data:application/pdf;base64,JVBERi0='',
      readAsText = Some ''%PDF-''\<rparr>
     (Base64ContentBlock ''file'' ''base64'' (Some ''application/pdf'') (Some ''JVBERi0='')
        (Some [(''filename'', ''scan.txt'')])) \<and>
   \<not> isDuplicate
     \<lparr>name = ''scan.txt'', type = ''application/pdf'',
      readAsDataURL = Some ''data:application/pdf;base64,JVBERi0='',
      readAsText = Some ''%PDF-''\<rparr>
     [Base64ContentBlock ''file'' ''base64'' (Some ''application/pdf'') (Some ''JVBERi0='')
        (Some [(''filename'', ''scan.txt'')])] \<and>
   contentBlocks
     (snd (handleFileUpload
             [Base64ContentBlock ''file'' ''base64'' (Some ''application/pdf'') (Some ''JVBERi0='')
                (Some [(''filename'', ''scan.txt'')])]
             (Some [\<lparr>name = ''scan.txt'', type = ''application/pdf'',
                      readAsDataURL = Some ''data:application/pdf;base64,JVBERi0='',
                      readAsText = Some ''%PDF-''\<rparr>])
             [0]
             (useFileUpload
                [Base64ContentBlock ''file'' ''base64'' (Some ''application/pdf'') (Some ''JVBERi0='')
                   (Some [(''filename'', ''scan.txt'')])]))) =
     [Base64ContentBlock ''file'' ''base64'' (Some ''application/pdf'') (Some ''JVBERi0='')
        (Some [(''filename'', ''scan.txt'')]),
      Base64ContentBlock ''file'' ''base64'' (Some ''application/pdf'') (Some ''JVBERi0='')
        (Some [(''filename'', ''scan.txt'')])] \<and>
   snd (fileToContentBlock
          \<lparr>name = ''plot.r'', type = ''image/png'',
           readAsDataURL = Some ''data:image/png;base64,iVBORw=='',
           readAsText = Some ''?PNG''\<rparr>) =
     Inr (Base64ContentBlock ''image'' ''base64'' (Some ''image/png'') (Some ''iVBORw=='')
            (Some [(''name'', ''plot.r'')])) \<and>
   sameImageFile
     \<lparr>name = ''plot.r'', type = ''image/png'',
      readAsDataURL = Some ''data:image/png;base64,iVBORw=='',
      readAsText = Some ''?PNG''\<rparr>
     (Base64ContentBlock ''image'' ''base64'' (Some ''image/png'') (Some ''iVBORw=='')
        (Some [(''name'', ''plot.r'')])) \<and>
   \<not> isDuplicate
     \<lparr>name = ''plot.r'', type = ''image/png'',
      readAsDataURL = Some ''data:image/png;base64,iVBORw=='',
      readAsText = Some ''?PNG''\<rparr>
     [Base64ContentBlock ''image'' ''base64'' (Some ''image/png'') (Some ''iVBORw=='')
        (Some [(''name'', ''plot.r'')])]"
  by code_simp

section \<open>The gate of paste\<close>









end
